theory Spec2Isabelle
  imports Main "HOL-Library.Word"
begin

section \<open>The ICP relay session (session.cpp)\<close>

text \<open>
  A shallow embedding of \<^verbatim>\<open>icp::session\<close>. Every callback of the session runs on the
  session's strand, so the session is a sequential state machine: each member function
  is a function from session state to session state. What the session does to the
  outside (writes on the websocket, closing, posts to the application event loop) is
  recorded in fields of the state, in the order in which it happens.

  The calls into Boost and fc are taken to return normally, with one exception: the
  decoder of \<^verbatim>\<open>do_read\<close> can throw on the bytes it is given, and that is the \<open>None\<close> of
  \<open>unpack_message\<close>. The strand assertions hold, since the model runs on the strand.
\<close>

subsection \<open>Basic types\<close>

type_synonym sha256 = "256 word"
  \<comment> \<open>\<^verbatim>\<open>fc::sha256\<close>; the default-constructed value \<^verbatim>\<open>fc::sha256()\<close> is all zero\<close>
type_synonym bytes = "8 word list"
type_synonym block_id_type = sha256
type_synonym time_point = "64 word"
  \<comment> \<open>\<^verbatim>\<open>fc::time_point\<close> and \<^verbatim>\<open>fc::microseconds\<close>: a signed 64-bit count of microseconds;
      a difference wraps around and is compared as a signed number (\<open>sint\<close>)\<close>
type_synonym action_name = string

definition seconds :: "64 word \<Rightarrow> 64 word" where
  \<comment> \<open>\<^verbatim>\<open>fc::seconds(n)\<close>, in microseconds\<close>
  "seconds n = n * 1000000"

text \<open>
  Modelled from the spec: the action-name macros of the relay are not among the sources;
  they name the contract actions \<^verbatim>\<open>openchannel\<close>, \<^verbatim>\<open>addblocks\<close> and \<^verbatim>\<open>addblock\<close> declared in
  \<^verbatim>\<open>contracts/icp/icp.hpp\<close>.
\<close>

definition ACTION_OPENCHANNEL :: action_name where
  "ACTION_OPENCHANNEL = ''openchannel''"

definition ACTION_ADDBLOCKS :: action_name where
  "ACTION_ADDBLOCKS = ''addblocks''"

definition ACTION_ADDBLOCK :: action_name where
  "ACTION_ADDBLOCK = ''addblock''"

subsection \<open>Messages\<close>

text \<open>
  Modelled from the spec: the message structs and the tagged union \<^verbatim>\<open>icp_message\<close> are
  declared in a header that is not among the sources. The fields are the ones session.cpp
  reads and writes; the variants and their order are the ones of the spec (section 4.3).
  The payload types of the host chain (header state, action, receipt) are opaque to the
  session, which only hands them to the serializer; they are carried as byte strings.
\<close>

record head =
  head_block_num :: "32 word"
  head_block_id :: block_id_type

record hello =
  hello_id :: sha256
  hello_chain_id :: sha256
  hello_contract :: string
  hello_peer_contract :: string

record ping =
  ping_sent :: time_point
  ping_code :: sha256
  ping_head :: head

record pong =
  pong_sent :: time_point
  pong_code :: sha256

datatype block_header_state = Block_Header_State bytes
datatype chain_action = Chain_Action bytes
datatype action_receipt = Action_Receipt bytes

record channel_seed =
  seed :: block_header_state

record block_header =
  block_num :: "32 word"
  header_rest :: bytes

record block_header_with_merkle_path =
  bhmp_block_header :: block_header
  merkle_path :: "block_id_type list"

record icp_actions =
  ia_block_header :: block_header
  peer_actions :: "action_name list"
  actions :: "chain_action list"
  action_receipts :: "action_receipt list"
  action_digests :: "sha256 list"

datatype icp_message =
    Hello hello
  | Ping ping
  | Pong pong
  | Channel_Seed channel_seed
  | Block_Header_With_Merkle_Path block_header_with_merkle_path
  | Icp_Actions icp_actions

text \<open>The payload of the peer action pushed for each entry of an \<^verbatim>\<open>icp_actions\<close> message.\<close>

record icp_action =
  action_bytes :: bytes
  receipt_bytes :: bytes
  block_id :: block_id_type
  digests :: "sha256 list"

text \<open>The relay's action: a name and serialized arguments.\<close>

record action =
  name :: action_name
  data :: bytes

subsection \<open>What the session leaves to its environment\<close>

text \<open>
  The relay, the chain plugin, the clock, the hash and the serializer (\<^verbatim>\<open>fc::raw\<close>) are
  outside session.cpp. They are parameters of the model: nothing is assumed about them.
  The clock is an oracle: \<open>clock env n\<close> is what the n-th call of
  \<^verbatim>\<open>fc::time_point::now()\<close> made by the session returns.
\<close>

record relay_env =
  relay_id :: sha256
  local_chain_id :: sha256
  local_contract :: string
  peer_contract :: string
  get_head :: "head option"
  clock :: "nat \<Rightarrow> time_point"
  sha256_hash :: "time_point \<Rightarrow> sha256"
  num_from_id :: "block_id_type \<Rightarrow> 32 word"
  header_id :: "block_header \<Rightarrow> block_id_type"
  pack_message :: "icp_message \<Rightarrow> bytes"
  unpack_message :: "bytes \<Rightarrow> (icp_message \<times> nat) option"
  pack_seed :: "block_header_state \<Rightarrow> bytes"
  pack_header :: "block_header \<Rightarrow> bytes"
  pack_bhmp :: "block_header_with_merkle_path \<Rightarrow> bytes"
  pack_chain_action :: "chain_action \<Rightarrow> bytes"
  pack_receipt :: "action_receipt \<Rightarrow> bytes"
  pack_icp_action :: "icp_action \<Rightarrow> bytes"

subsection \<open>Session state\<close>

datatype session_state = idle_state | sending_state

datatype close_code = bad_payload

datatype producer = Direct | From_Pump
  \<comment> \<open>who started a write: a call of \<^verbatim>\<open>send\<close> made inside \<^verbatim>\<open>maybe_send_next_message\<close>, or
      one made outside it\<close>

datatype app_task =
    Push_Transaction "action list"
      \<comment> \<open>\<^verbatim>\<open>relay_->push_transaction(vector<action>{...})\<close>\<close>
  | Set_Peer_Head head
      \<comment> \<open>\<^verbatim>\<open>relay_->peer_head_ = p.head\<close>\<close>
  | Check_Redundant
      \<comment> \<open>the scan of \<^verbatim>\<open>check_for_redundant_connection\<close>\<close>
  | Do_Read
      \<comment> \<open>the strand-bound \<^verbatim>\<open>do_read\<close> of \<^verbatim>\<open>wait_on_app\<close>\<close>

text \<open>
  The members of the session, followed by what it has done to the outside:
  \<open>socket_closed\<close>: \<^verbatim>\<open>ws_->next_layer().close()\<close> was called;
  \<open>ws_closes\<close>: the codes of the calls of \<^verbatim>\<open>ws_->close(code)\<close>;
  \<open>wire\<close>: the buffers handed to \<^verbatim>\<open>async_write\<close>, oldest first;
  \<open>writes_in_flight\<close>: writes started whose completion handler has not run yet;
  \<open>reads_issued\<close>: the number of calls of \<^verbatim>\<open>async_read\<close>;
  \<open>app_posts\<close>: the tasks posted to the application event loop, oldest first;
  \<open>ticks\<close>: the number of clock readings made so far.
  Two more fields are bookkeeping that the code does not have: \<open>pumping\<close> is true while
  the strand is inside \<^verbatim>\<open>maybe_send_next_message\<close>, and \<open>producers\<close> records, for each
  entry of \<open>wire\<close>, whether the write was started inside or outside the pump. Nothing
  the session does depends on them.
\<close>

record session =
  session_id :: int
  peer_id :: sha256
  state :: session_state
  in_buffer :: bytes
  out_buffer :: bytes
  msg_buffer :: "icp_message list"
  last_sent_ping :: ping
  last_recv_ping :: ping
  last_recv_ping_time :: time_point
  recv_remote_hello :: bool
  sent_remote_hello :: bool
  local_head :: head
  socket_closed :: bool
  ws_closes :: "close_code list"
  wire :: "bytes list"
  writes_in_flight :: nat
  reads_issued :: nat
  app_posts :: "app_task list"
  ticks :: nat
  pumping :: bool
  producers :: "producer list"

subsection \<open>Closing, posting, the clock\<close>

definition now :: "relay_env \<Rightarrow> session \<Rightarrow> time_point \<times> session" where
  "now env s = (clock env (ticks s), s\<lparr>ticks := Suc (ticks s)\<rparr>)"

definition close :: "session \<Rightarrow> session" where
  "close s = s\<lparr>socket_closed := True\<rparr>"

definition on_error :: "session \<Rightarrow> session" where
  "on_error s = s\<lparr>socket_closed := True\<rparr>"

definition ws_close :: "close_code \<Rightarrow> session \<Rightarrow> session" where
  "ws_close c s = s\<lparr>ws_closes := ws_closes s @ [c]\<rparr>"

definition app_post :: "app_task \<Rightarrow> session \<Rightarrow> session" where
  "app_post t s = s\<lparr>app_posts := app_posts s @ [t]\<rparr>"

subsection \<open>Sending\<close>

definition send_raw :: "session \<Rightarrow> session" where
  \<comment> \<open>\<^verbatim>\<open>session::send()\<close>: mark the session as sending and start the write of the out-buffer\<close>
  "send_raw s =
     s\<lparr>state := sending_state,
       wire := wire s @ [out_buffer s],
       writes_in_flight := Suc (writes_in_flight s),
       producers := producers s @ [if pumping s then From_Pump else Direct]\<rparr>"

definition send :: "relay_env \<Rightarrow> icp_message \<Rightarrow> session \<Rightarrow> session" where
  \<comment> \<open>\<^verbatim>\<open>session::send(const icp_message&)\<close>\<close>
  "send env msg s = send_raw (s\<lparr>out_buffer := pack_message env msg\<rparr>)"

definition buffer_send :: "icp_message \<Rightarrow> session \<Rightarrow> session" where
  "buffer_send msg s = s\<lparr>msg_buffer := msg_buffer s @ [msg]\<rparr>"

definition do_hello :: "relay_env \<Rightarrow> session \<Rightarrow> session" where
  "do_hello env s =
     send env
       (Hello \<lparr>hello_id = relay_id env, hello_chain_id = local_chain_id env,
               hello_contract = local_contract env,
               hello_peer_contract = peer_contract env\<rparr>) s"

definition send_ping :: "relay_env \<Rightarrow> session \<Rightarrow> bool \<times> session" where
  "send_ping env s =
     (let (t, s1) = now env s;
          delta_t = t - ping_sent (last_sent_ping s1)
      in if sint delta_t < sint (seconds 3) then (False, s1)
         else if ping_code (last_sent_ping s1) = 0 then
           (let (t2, s2) = now env s1;
                p = \<lparr>ping_sent = t2, ping_code = sha256_hash env t2,
                     ping_head = local_head s2\<rparr>;
                s3 = s2\<lparr>last_sent_ping := p\<rparr>
            in (True, send env (Ping p) s3))
         else (True, s1))"

definition send_pong :: "relay_env \<Rightarrow> session \<Rightarrow> bool \<times> session" where
  "send_pong env s =
     (if ping_code (last_recv_ping s) = 0 then (False, s)
      else
        (let (t, s1) = now env s;
             s2 = send env (Pong \<lparr>pong_sent = t,
                                  pong_code = ping_code (last_recv_ping s1)\<rparr>) s1
         in (True, s2\<lparr>last_recv_ping := (last_recv_ping s2)\<lparr>ping_code := 0\<rparr>\<rparr>)))"

definition maybe_send_next_message :: "relay_env \<Rightarrow> session \<Rightarrow> session" where
  \<comment> \<open>\<open>g\<close> is the session on entry, marked as inside the pump; the mark is taken off on
      every way out\<close>
  "maybe_send_next_message env s =
     (let g = s\<lparr>pumping := True\<rparr>;
          r =
            (if state g = sending_state then g
             else if out_buffer g \<noteq> [] then g
             else if \<not> recv_remote_hello g \<or> \<not> sent_remote_hello g then g
             else
               (case send_pong env g of
                  (True, s1) \<Rightarrow> s1
                | (False, s1) \<Rightarrow>
                    (case send_ping env s1 of
                       (True, s2) \<Rightarrow> s2
                     | (False, s2) \<Rightarrow>
                         (case msg_buffer s2 of
                            [] \<Rightarrow> s2
                          | msg # rest \<Rightarrow> (send env msg s2)\<lparr>msg_buffer := rest\<rparr>))))
      in r\<lparr>pumping := pumping s\<rparr>)"

definition on_write :: "relay_env \<Rightarrow> bool \<Rightarrow> session \<Rightarrow> session" where
  \<comment> \<open>the completion handler of \<^verbatim>\<open>async_write\<close>; the flag is the error code\<close>
  "on_write env ec s =
     (let s0 = s\<lparr>writes_in_flight := writes_in_flight s - 1\<rparr>
      in if ec then on_error (s0\<lparr>socket_closed := True\<rparr>)
         else maybe_send_next_message env (s0\<lparr>state := idle_state, out_buffer := []\<rparr>))"

subsection \<open>Handlers of the received messages\<close>

definition check_for_redundant_connection :: "session \<Rightarrow> session" where
  \<comment> \<open>posts the scan; the scan itself is \<open>redundant_scan\<close> below\<close>
  "check_for_redundant_connection s = app_post Check_Redundant s"

definition on_hello :: "relay_env \<Rightarrow> hello \<Rightarrow> session \<Rightarrow> session" where
  "on_hello env hi s =
     (if hello_chain_id hi \<noteq> local_chain_id env then close s
      else if hello_id hi = relay_id env then close s
      else check_for_redundant_connection (s\<lparr>peer_id := hello_id hi\<rparr>))"

definition on_ping :: "relay_env \<Rightarrow> ping \<Rightarrow> session \<Rightarrow> session" where
  "on_ping env p s =
     (let s1 = s\<lparr>last_recv_ping := p\<rparr>;
          (t, s2) = now env s1;
          s3 = s2\<lparr>last_recv_ping_time := t\<rparr>
      in app_post (Set_Peer_Head (ping_head p)) s3)"

definition on_pong :: "pong \<Rightarrow> session \<Rightarrow> session" where
  "on_pong p s =
     (if pong_code p \<noteq> ping_code (last_sent_ping s) then close s
      else s\<lparr>last_sent_ping := (last_sent_ping s)\<lparr>ping_code := 0\<rparr>\<rparr>)"

definition on_channel_seed :: "relay_env \<Rightarrow> channel_seed \<Rightarrow> session \<Rightarrow> session" where
  "on_channel_seed env cs s =
     (let d = pack_seed env (seed cs)
      in app_post (Push_Transaction [\<lparr>name = ACTION_OPENCHANNEL, data = d\<rparr>]) s)"

definition first_num :: "relay_env \<Rightarrow> block_header_with_merkle_path \<Rightarrow> 32 word" where
  \<comment> \<open>the local \<^verbatim>\<open>first_num\<close> of the handler below\<close>
  "first_num env b =
     (case merkle_path b of
        [] \<Rightarrow> block_num (bhmp_block_header b)
      | front # _ \<Rightarrow> num_from_id env front)"

definition on_block_header_with_merkle_path ::
  "relay_env \<Rightarrow> block_header_with_merkle_path \<Rightarrow> session \<Rightarrow> session" where
  "on_block_header_with_merkle_path env b s =
     (case get_head env of
        None \<Rightarrow> s
      | Some h \<Rightarrow>
          if first_num env b \<noteq> head_block_num h + 1 then s
          else
            (let d = pack_bhmp env b
             in app_post (Push_Transaction [\<lparr>name = ACTION_ADDBLOCKS, data = d\<rparr>]) s))"

text \<open>
  The handler of \<^verbatim>\<open>icp_actions\<close> indexes \<^verbatim>\<open>ia.actions\<close> and \<^verbatim>\<open>ia.action_receipts\<close> with
  \<^verbatim>\<open>operator[]\<close>, which checks nothing: an index beyond the end is undefined behaviour in
  C++. The model makes it a fault, so that it cannot be mistaken for a value.
\<close>

datatype fault = Out_Of_Bounds

definition peer_action :: "relay_env \<Rightarrow> icp_actions \<Rightarrow> block_id_type \<Rightarrow> nat \<Rightarrow> action" where
  \<comment> \<open>the action built by one round of the loop, for an index that is in range\<close>
  "peer_action env ia bid i =
     \<lparr>name = peer_actions ia ! i,
      data = pack_icp_action env
               \<lparr>action_bytes = pack_chain_action env (actions ia ! i),
                receipt_bytes = pack_receipt env (action_receipts ia ! i),
                block_id = bid,
                digests = action_digests ia\<rparr>\<rparr>"

function icp_actions_loop ::
  "relay_env \<Rightarrow> icp_actions \<Rightarrow> block_id_type \<Rightarrow> nat \<Rightarrow> session \<Rightarrow> fault + session" where
  "icp_actions_loop env ia bid i s =
     (if i < length (peer_actions ia) then
        (if i < length (actions ia) \<and> i < length (action_receipts ia) then
           icp_actions_loop env ia bid (Suc i)
             (app_post (Push_Transaction [peer_action env ia bid i]) s)
         else Inl Out_Of_Bounds)
      else Inr s)"
  by pat_completeness auto
termination
  by (relation "measure (\<lambda>(env, ia, bid, i, s). length (peer_actions ia) - i)") auto

definition on_icp_actions :: "relay_env \<Rightarrow> icp_actions \<Rightarrow> session \<Rightarrow> fault + session" where
  "on_icp_actions env ia s =
     (let bid = header_id env (ia_block_header ia);
          d = pack_header env (ia_block_header ia);
          s1 = app_post (Push_Transaction [\<lparr>name = ACTION_ADDBLOCK, data = d\<rparr>]) s
      in icp_actions_loop env ia bid 0 s1)"

subsection \<open>Dispatch and the read loop\<close>

definition on_message :: "relay_env \<Rightarrow> icp_message \<Rightarrow> session \<Rightarrow> session" where
  "on_message env msg s =
     (case msg of
        Hello hi \<Rightarrow> maybe_send_next_message env (on_hello env hi s)
      | Ping p \<Rightarrow> maybe_send_next_message env (on_ping env p s)
      | Pong p \<Rightarrow> maybe_send_next_message env (on_pong p s)
      | _ \<Rightarrow> ws_close bad_payload s)"

definition dispatched :: "icp_message \<Rightarrow> bool" where
  \<comment> \<open>the tags that have a case in the switch of \<^verbatim>\<open>on_message\<close>\<close>
  "dispatched msg = (case msg of Hello _ \<Rightarrow> True | Ping _ \<Rightarrow> True | Pong _ \<Rightarrow> True | _ \<Rightarrow> False)"

definition do_read :: "session \<Rightarrow> session" where
  \<comment> \<open>issues the asynchronous read; its completion handler is \<open>on_read\<close>\<close>
  "do_read s = s\<lparr>reads_issued := Suc (reads_issued s)\<rparr>"

definition wait_on_app :: "session \<Rightarrow> session" where
  "wait_on_app s = app_post Do_Read s"

datatype read_ec = Read_Ok | Read_Closed | Read_Failed

definition on_read :: "relay_env \<Rightarrow> read_ec \<Rightarrow> bytes \<Rightarrow> session \<Rightarrow> session" where
  \<comment> \<open>the completion handler of \<^verbatim>\<open>async_read\<close>: the bytes read have been appended to the
      in-buffer; a failure to decode is the exception caught by \<^verbatim>\<open>catch (...)\<close>\<close>
  "on_read env ec received s =
     (let s0 = s\<lparr>in_buffer := in_buffer s @ received\<rparr>
      in case ec of
           Read_Closed \<Rightarrow> on_error s0
         | Read_Failed \<Rightarrow> on_error s0
         | Read_Ok \<Rightarrow>
             (case unpack_message env (in_buffer s0) of
                None \<Rightarrow> ws_close bad_payload s0
              | Some (msg, n) \<Rightarrow>
                  (let s1 = on_message env msg s0;
                       s2 = s1\<lparr>in_buffer := drop n (in_buffer s1)\<rparr>
                   in wait_on_app s2)))"

subsection \<open>The coordinator's scan for redundant connections\<close>

text \<open>
  The scan runs on the application thread over the sessions registered with the relay.
  Sessions are shared objects: the store maps the identity of a session (its session id,
  which \<^verbatim>\<open>next_session_id\<close> makes unique) to its state, and the registry lists the
  identities that \<^verbatim>\<open>for_each_session\<close> visits. \<open>self\<close> is the session that posted the scan.
\<close>

type_synonym store = "int \<rightharpoonup> session"

fun redundant_scan :: "int \<Rightarrow> int list \<Rightarrow> store \<Rightarrow> store" where
  "redundant_scan self [] st = st"
| "redundant_scan self (a # registry) st =
     redundant_scan self registry
       (case (st a, st self) of
          (Some s, Some me) \<Rightarrow>
            if a \<noteq> self \<and> peer_id s = peer_id me then st(self \<mapsto> close me) else st
        | _ \<Rightarrow> st)"

fun run_app_task :: "int \<Rightarrow> int list \<Rightarrow> app_task \<Rightarrow> store \<Rightarrow> store" where
  \<comment> \<open>a task posted by session \<open>self\<close> runs; pushing a transaction and setting the peer
      head act on the relay and the chain, not on the sessions\<close>
  "run_app_task self registry Check_Redundant st = redundant_scan self registry st"
| "run_app_task self registry Do_Read st =
     (case st self of None \<Rightarrow> st | Some me \<Rightarrow> st(self \<mapsto> do_read me))"
| "run_app_task self registry (Push_Transaction as) st = st"
| "run_app_task self registry (Set_Peer_Head h) st = st"

fun run_app_tasks :: "int \<Rightarrow> int list \<Rightarrow> app_task list \<Rightarrow> store \<Rightarrow> store" where
  "run_app_tasks self registry [] st = st"
| "run_app_tasks self registry (t # ts) st =
     run_app_tasks self registry ts (run_app_task self registry t st)"

definition receive_hello :: "relay_env \<Rightarrow> int \<Rightarrow> hello \<Rightarrow> int list \<Rightarrow> store \<Rightarrow> store" where
  \<comment> \<open>session \<open>self\<close> handles a hello, then the application thread runs what it posted\<close>
  "receive_hello env self hi registry st =
     (case st self of
        None \<Rightarrow> st
      | Some me \<Rightarrow>
          (let me' = on_hello env hi me;
               posted = drop (length (app_posts me)) (app_posts me')
           in run_app_tasks self registry posted (st(self \<mapsto> me'))))"

subsection \<open>The life of one session\<close>

text \<open>
  Once the transport is up (the callbacks of \<^verbatim>\<open>do_accept\<close> and \<^verbatim>\<open>on_connect\<close>) the session
  calls \<^verbatim>\<open>do_hello\<close> and \<^verbatim>\<open>do_read\<close>; from then on it is driven by the events below, one at
  a time on its strand. A write can complete only if one is in flight.

  Modelled from the spec: the member initialisers of the session are in a header that is
  not among the sources. A new session is idle, has written nothing and has neither sent
  nor received a hello; the statements below that need it say so in their hypotheses
  (\<open>fresh\<close>, \<open>hellos_exchanged\<close>).
\<close>

datatype event =
    Read_Done read_ec bytes
      \<comment> \<open>the handler of \<^verbatim>\<open>async_read\<close> runs, with the error code and the bytes read\<close>
  | Write_Done bool
      \<comment> \<open>the handler of \<^verbatim>\<open>async_write\<close> runs; the flag is the error code\<close>
  | Enqueue icp_message
      \<comment> \<open>\<^verbatim>\<open>buffer_send\<close>\<close>
  | Pump
      \<comment> \<open>\<^verbatim>\<open>maybe_send_next_message\<close>, posted to the strand from outside\<close>
  | App_Read
      \<comment> \<open>the \<^verbatim>\<open>do_read\<close> posted by \<^verbatim>\<open>wait_on_app\<close> runs\<close>

fun enabled :: "event \<Rightarrow> session \<Rightarrow> bool" where
  "enabled (Write_Done ec) s = (0 < writes_in_flight s)"
| "enabled e s = True"

fun handle :: "relay_env \<Rightarrow> event \<Rightarrow> session \<Rightarrow> session" where
  "handle env (Read_Done ec received) s = on_read env ec received s"
| "handle env (Write_Done ec) s = on_write env ec s"
| "handle env (Enqueue msg) s = buffer_send msg s"
| "handle env Pump s = maybe_send_next_message env s"
| "handle env App_Read s = do_read s"

fun run :: "relay_env \<Rightarrow> event list \<Rightarrow> session \<Rightarrow> session option" where
  "run env [] s = Some s"
| "run env (e # es) s = (if enabled e s then run env es (handle env e s) else None)"

definition on_transport_up :: "relay_env \<Rightarrow> session \<Rightarrow> session" where
  "on_transport_up env s = do_read (do_hello env s)"

definition fresh :: "session \<Rightarrow> bool" where
  \<comment> \<open>a session on which nothing has been written yet\<close>
  "fresh s \<longleftrightarrow>
     state s = idle_state \<and> out_buffer s = [] \<and> writes_in_flight s = 0 \<and> wire s = []
     \<and> producers s = [] \<and> \<not> pumping s"

definition is_write_done :: "event \<Rightarrow> bool" where
  "is_write_done e = (case e of Write_Done _ \<Rightarrow> True | _ \<Rightarrow> False)"

subsection \<open>Predicates used in the statements and proofs\<close>

definition shares_peer_id :: "int \<Rightarrow> int list \<Rightarrow> store \<Rightarrow> sha256 \<Rightarrow> bool" where
  \<comment> \<open>a registered session other than \<open>self\<close> has peer id \<open>p\<close>\<close>
  "shares_peer_id self registry st p =
     list_ex (\<lambda>a. a \<noteq> self \<and> (case st a of None \<Rightarrow> False | Some s \<Rightarrow> peer_id s = p)) registry"

definition quiet :: "session \<Rightarrow> session \<Rightarrow> bool" where
  \<comment> \<open>from \<open>s\<close> to \<open>s'\<close> nothing was written and the write state did not change\<close>
  "quiet s s' \<longleftrightarrow>
     wire s' = wire s \<and> writes_in_flight s' = writes_in_flight s
     \<and> state s' = state s \<and> out_buffer s' = out_buffer s
     \<and> producers s' = producers s \<and> pumping s' = pumping s"

definition one_write :: "session \<Rightarrow> session \<Rightarrow> bool" where
  \<comment> \<open>from \<open>s\<close> to \<open>s'\<close> exactly one write was started, on an idle session, inside the pump\<close>
  "one_write s s' \<longleftrightarrow>
     wire s' \<noteq> [] \<and> butlast (wire s') = wire s \<and> state s = idle_state \<and> out_buffer s = []
     \<and> state s' = sending_state \<and> writes_in_flight s' = Suc (writes_in_flight s)
     \<and> producers s' = producers s @ [From_Pump] \<and> pumping s' = pumping s"

definition write_inv :: "session \<Rightarrow> bool" where
  "write_inv s \<longleftrightarrow>
     writes_in_flight s \<le> 1
     \<and> (state s = idle_state \<longrightarrow> writes_in_flight s = 0 \<and> out_buffer s = [])"

definition producers_inv :: "session \<Rightarrow> bool" where
  \<comment> \<open>the first write was started outside the pump, every later one inside it\<close>
  "producers_inv s \<longleftrightarrow>
     \<not> pumping s \<and> wire s \<noteq> []
     \<and> producers s = Direct # replicate (length (wire s) - 1) From_Pump"

definition hellos_exchanged :: "session \<Rightarrow> bool" where
  \<comment> \<open>the guard of the pump on the two hello flags\<close>
  "hellos_exchanged s \<longleftrightarrow> recv_remote_hello s \<and> sent_remote_hello s"

subsection \<open>A concrete relay and session, for evaluating the model\<close>

definition example_head :: head where
  "example_head = \<lparr>head_block_num = 100, head_block_id = 0\<rparr>"

definition example_pack_message :: "icp_message \<Rightarrow> bytes" where
  "example_pack_message msg =
     (case msg of
        Hello _ \<Rightarrow> [0]
      | Ping p \<Rightarrow> [1, ucast (ping_code p)]
      | Pong p \<Rightarrow> [2, ucast (pong_code p)]
      | Channel_Seed _ \<Rightarrow> [3]
      | Block_Header_With_Merkle_Path _ \<Rightarrow> [4]
      | Icp_Actions _ \<Rightarrow> [5])"

definition example_unpack_message :: "bytes \<Rightarrow> (icp_message \<times> nat) option" where
  "example_unpack_message bs =
     (case bs of
        [] \<Rightarrow> None
      | b # _ \<Rightarrow>
          if b = 0 then
            Some (Hello \<lparr>hello_id = 9, hello_chain_id = 7, hello_contract = ''icp'',
                          hello_peer_contract = ''icp''\<rparr>, 1)
          else if b = 1 then
            Some (Ping \<lparr>ping_sent = 0, ping_code = 5, ping_head = example_head\<rparr>, 1)
          else if b = 2 then Some (Pong \<lparr>pong_sent = 0, pong_code = 5\<rparr>, 1)
          else if b = 3 then Some (Channel_Seed \<lparr>seed = Block_Header_State [9]\<rparr>, 1)
          else None)"

definition example_env :: relay_env where
  "example_env =
     \<lparr>relay_id = 1, local_chain_id = 7, local_contract = ''icp'', peer_contract = ''icp'',
      get_head = Some example_head,
      clock = (\<lambda>n. 10000000 + of_nat n),
      sha256_hash = (\<lambda>t. 255),
      num_from_id = (\<lambda>i. ucast i),
      header_id = (\<lambda>h. ucast (block_num h)),
      pack_message = example_pack_message,
      unpack_message = example_unpack_message,
      pack_seed = (\<lambda>x. case x of Block_Header_State bs \<Rightarrow> bs),
      pack_header = header_rest,
      pack_bhmp = (\<lambda>b. header_rest (bhmp_block_header b)),
      pack_chain_action = (\<lambda>x. case x of Chain_Action bs \<Rightarrow> bs),
      pack_receipt = (\<lambda>x. case x of Action_Receipt bs \<Rightarrow> bs),
      pack_icp_action = (\<lambda>a. action_bytes a @ receipt_bytes a)\<rparr>"

definition example_ping :: ping where
  "example_ping = \<lparr>ping_sent = 0, ping_code = 0, ping_head = example_head\<rparr>"

definition example_session :: session where
  \<comment> \<open>a new session: idle, nothing sent or received, both hello flags down\<close>
  "example_session =
     \<lparr>session_id = 1, peer_id = 0, state = idle_state, in_buffer = [], out_buffer = [],
      msg_buffer = [], last_sent_ping = example_ping, last_recv_ping = example_ping,
      last_recv_ping_time = 0, recv_remote_hello = False, sent_remote_hello = False,
      local_head = example_head, socket_closed = False, ws_closes = [], wire = [],
      writes_in_flight = 0, reads_issued = 0, app_posts = [], ticks = 0,
      pumping = False, producers = []\<rparr>"

definition flagged_session :: session where
  \<comment> \<open>the same session with both hello flags up, a state no function of the session
      produces; it shows what the pump does behind its guard\<close>
  "flagged_session = example_session\<lparr>recv_remote_hello := True, sent_remote_hello := True\<rparr>"

section \<open>The send pump\<close>

lemmas send_defs = send_def send_raw_def now_def
lemmas pump_defs = maybe_send_next_message_def send_pong_def send_ping_def send_defs
lemmas example_defs = example_session_def flagged_session_def example_env_def example_ping_def
  example_head_def example_pack_message_def example_unpack_message_def seconds_def
lemmas handler_defs = on_hello_def on_ping_def on_pong_def check_for_redundant_connection_def
  app_post_def close_def now_def

lemma not_sending_iff [simp]: "(x \<noteq> sending_state) = (x = idle_state)"
  by (cases x) auto

lemma not_idle_iff [simp]: "(x \<noteq> idle_state) = (x = sending_state)"
  by (cases x) auto

lemma pump_guard:
  "state s = sending_state \<or> out_buffer s \<noteq> [] \<or> \<not> hellos_exchanged s \<Longrightarrow>
   maybe_send_next_message env s = s"
  by (auto simp: maybe_send_next_message_def hellos_exchanged_def Let_def)

text \<open>
  An invocation of the pump either leaves the wire alone or starts exactly one write, and
  it starts one only on an idle session with an empty out-buffer.
\<close>

lemma pump_quiet_or_one:
  "quiet s (maybe_send_next_message env s) \<or> one_write s (maybe_send_next_message env s)"
  unfolding quiet_def one_write_def
  by (auto simp: pump_defs Let_def split: list.splits prod.splits if_splits)

lemma pump_keeps:
  "socket_closed (maybe_send_next_message env s) = socket_closed s"
  "ws_closes (maybe_send_next_message env s) = ws_closes s"
  "app_posts (maybe_send_next_message env s) = app_posts s"
  "in_buffer (maybe_send_next_message env s) = in_buffer s"
  "reads_issued (maybe_send_next_message env s) = reads_issued s"
  "recv_remote_hello (maybe_send_next_message env s) = recv_remote_hello s"
  "sent_remote_hello (maybe_send_next_message env s) = sent_remote_hello s"
  by (auto simp: pump_defs Let_def split: list.splits prod.splits if_splits)

text \<open>What the pump does behind its guard on the hello flags.\<close>

lemma pump_pong:
  assumes "hellos_exchanged s" "state s = idle_state" "out_buffer s = []"
    and "ping_code (last_recv_ping s) \<noteq> 0"
  shows "wire (maybe_send_next_message env s) =
           wire s @ [pack_message env (Pong \<lparr>pong_sent = clock env (ticks s),
                        pong_code = ping_code (last_recv_ping s)\<rparr>)]
         \<and> msg_buffer (maybe_send_next_message env s) = msg_buffer s"
  using assms by (simp add: pump_defs hellos_exchanged_def Let_def)

lemma pump_ping:
  assumes "hellos_exchanged s" "state s = idle_state" "out_buffer s = []"
    and "ping_code (last_recv_ping s) = 0" "ping_code (last_sent_ping s) = 0"
    and "sint (seconds 3) \<le> sint (clock env (ticks s) - ping_sent (last_sent_ping s))"
  shows "wire (maybe_send_next_message env s) =
           wire s @ [pack_message env (Ping \<lparr>ping_sent = clock env (Suc (ticks s)),
                        ping_code = sha256_hash env (clock env (Suc (ticks s))),
                        ping_head = local_head s\<rparr>)]
         \<and> msg_buffer (maybe_send_next_message env s) = msg_buffer s"
  using assms by (simp add: pump_defs hellos_exchanged_def Let_def)

lemma pump_dequeue:
  assumes "hellos_exchanged s" "state s = idle_state" "out_buffer s = []"
    and "ping_code (last_recv_ping s) = 0"
    and "sint (clock env (ticks s) - ping_sent (last_sent_ping s)) < sint (seconds 3)"
    and "msg_buffer s = m # rest"
  shows "wire (maybe_send_next_message env s) = wire s @ [pack_message env m]
         \<and> msg_buffer (maybe_send_next_message env s) = rest"
  using assms by (simp add: pump_defs hellos_exchanged_def Let_def)

text \<open>
  When a ping is in flight and three seconds have passed since it was sent,
  \<^verbatim>\<open>send_ping\<close> returns true without sending, and the pump returns before it looks at the
  queue.
\<close>

lemma pump_overdue_ping:
  assumes "hellos_exchanged s" "state s = idle_state" "out_buffer s = []"
    and "ping_code (last_recv_ping s) = 0" "ping_code (last_sent_ping s) \<noteq> 0"
    and "sint (seconds 3) \<le> sint (clock env (ticks s) - ping_sent (last_sent_ping s))"
  shows "wire (maybe_send_next_message env s) = wire s
         \<and> msg_buffer (maybe_send_next_message env s) = msg_buffer s"
  using assms by (simp add: pump_defs hellos_exchanged_def Let_def)

text \<open>
  No function of the session assigns \<^verbatim>\<open>recv_remote_hello_\<close> or \<^verbatim>\<open>sent_remote_hello_\<close>: the
  only place that names them is the guard of the pump.
\<close>

lemma on_message_keeps_flags:
  "recv_remote_hello (on_message env msg s) = recv_remote_hello s"
  "sent_remote_hello (on_message env msg s) = sent_remote_hello s"
  by (cases msg; simp add: on_message_def pump_keeps handler_defs ws_close_def Let_def)+

lemma handle_keeps_flags:
  "hellos_exchanged (handle env e s) = hellos_exchanged s"
proof (cases e)
  case (Read_Done ec received)
  then show ?thesis
    by (cases ec; cases "unpack_message env (in_buffer s @ received)")
      (auto simp: hellos_exchanged_def on_read_def on_error_def ws_close_def wait_on_app_def
        app_post_def on_message_keeps_flags Let_def)
next
  case (Write_Done ec)
  then show ?thesis
    by (cases ec) (simp_all add: hellos_exchanged_def on_write_def on_error_def pump_keeps Let_def)
next
  case (Enqueue msg)
  then show ?thesis by (simp add: hellos_exchanged_def buffer_send_def)
next
  case Pump
  then show ?thesis by (simp add: hellos_exchanged_def pump_keeps)
next
  case App_Read
  then show ?thesis by (simp add: hellos_exchanged_def do_read_def)
qed

lemma handler_keeps_guard:
  "hellos_exchanged (on_hello env hi s) = hellos_exchanged s"
  "hellos_exchanged (on_ping env p s) = hellos_exchanged s"
  "hellos_exchanged (on_pong q s) = hellos_exchanged s"
  "wire (on_hello env hi s) = wire s"
  "wire (on_ping env p s) = wire s"
  "wire (on_pong q s) = wire s"
  by (simp_all add: hellos_exchanged_def handler_defs Let_def)

lemma on_message_gated:
  "\<not> hellos_exchanged s \<Longrightarrow> wire (on_message env msg s) = wire s"
  by (cases msg) (simp_all add: on_message_def pump_guard handler_keeps_guard ws_close_def)

lemma handle_gated:
  assumes "\<not> hellos_exchanged s"
  shows "wire (handle env e s) = wire s"
proof (cases e)
  case (Read_Done ec received)
  have "\<not> hellos_exchanged (s\<lparr>in_buffer := in_buffer s @ received\<rparr>)"
    using assms by (simp add: hellos_exchanged_def)
  then have "wire (on_message env msg (s\<lparr>in_buffer := in_buffer s @ received\<rparr>)) = wire s" for msg
    by (simp add: on_message_gated)
  with Read_Done show ?thesis
    by (cases ec; cases "unpack_message env (in_buffer s @ received)")
      (auto simp: on_read_def on_error_def ws_close_def wait_on_app_def app_post_def Let_def)
next
  case (Write_Done ec)
  let ?m = "s\<lparr>writes_in_flight := writes_in_flight s - 1, state := idle_state,
               out_buffer := []\<rparr>"
  have "\<not> hellos_exchanged ?m" using assms by (simp add: hellos_exchanged_def)
  then have "maybe_send_next_message env ?m = ?m" by (simp add: pump_guard)
  with Write_Done show ?thesis
    by (cases ec) (simp_all add: on_write_def on_error_def Let_def)
next
  case (Enqueue msg)
  then show ?thesis by (simp add: buffer_send_def)
next
  case Pump
  with assms show ?thesis by (simp add: pump_guard)
next
  case App_Read
  then show ?thesis by (simp add: do_read_def)
qed

lemma run_gated:
  "\<not> hellos_exchanged s \<Longrightarrow> run env es s = Some s' \<Longrightarrow>
   \<not> hellos_exchanged s' \<and> wire s' = wire s"
proof (induction es arbitrary: s)
  case Nil
  then show ?case by simp
next
  case (Cons e es)
  from Cons.prems(2) have r: "run env es (handle env e s) = Some s'"
    by (auto split: if_splits)
  have "\<not> hellos_exchanged (handle env e s)"
    using Cons.prems(1) by (simp add: handle_keeps_flags)
  from Cons.IH [OF this r] handle_gated [OF Cons.prems(1), of env e] show ?case
    by simp
qed

text \<open>
  Claim C1 says that in the operational state the pump sends the pending pong first, then
  a ping that is due, then one queued message. The code never gets there. The pump
  returns at once unless both hello flags are up, and nothing raises them: on a session
  that starts with a flag down, whatever is received and whatever completes, the flags
  stay as they were, an invocation of the pump changes nothing, and the hello written by
  \<^verbatim>\<open>do_hello\<close> remains the only write of the session.
\<close>

theorem pump_never_passes_hello_guard:
  assumes "\<not> hellos_exchanged s0"
    and "run env es (on_transport_up env s0) = Some s"
  shows "\<not> hellos_exchanged s
     \<and> maybe_send_next_message env s = s
     \<and> wire s = wire s0 @
         [pack_message env
            (Hello \<lparr>hello_id = relay_id env, hello_chain_id = local_chain_id env,
                    hello_contract = local_contract env,
                    hello_peer_contract = peer_contract env\<rparr>)]"
proof -
  have g: "\<not> hellos_exchanged (on_transport_up env s0)"
    using assms(1)
    by (simp add: hellos_exchanged_def on_transport_up_def do_read_def do_hello_def send_defs)
  have w: "wire (on_transport_up env s0) = wire s0 @
         [pack_message env
            (Hello \<lparr>hello_id = relay_id env, hello_chain_id = local_chain_id env,
                    hello_contract = local_contract env,
                    hello_peer_contract = peer_contract env\<rparr>)]"
    by (simp add: on_transport_up_def do_read_def do_hello_def send_defs)
  from run_gated [OF g assms(2)] w show ?thesis
    by (simp add: pump_guard)
qed

text \<open>
  The session of the witness sends its hello, sees the write complete, receives the
  peer's hello (peer id 9) and then a ping with code 5. It is idle with an empty
  out-buffer and the ping is unanswered; the pump is invoked and no pong is written.
\<close>

theorem pump_never_passes_hello_guard_witness:
  "\<not> hellos_exchanged example_session
   \<and> run example_env
        [Write_Done False, Read_Done Read_Ok [0], Read_Done Read_Ok [1], Pump]
        (on_transport_up example_env example_session) =
      Some (the (run example_env
        [Write_Done False, Read_Done Read_Ok [0], Read_Done Read_Ok [1], Pump]
        (on_transport_up example_env example_session)))
   \<and> peer_id (the (run example_env
        [Write_Done False, Read_Done Read_Ok [0], Read_Done Read_Ok [1], Pump]
        (on_transport_up example_env example_session))) = 9
   \<and> ping_code (last_recv_ping (the (run example_env
        [Write_Done False, Read_Done Read_Ok [0], Read_Done Read_Ok [1], Pump]
        (on_transport_up example_env example_session)))) = 5
   \<and> state (the (run example_env
        [Write_Done False, Read_Done Read_Ok [0], Read_Done Read_Ok [1], Pump]
        (on_transport_up example_env example_session))) = idle_state
   \<and> out_buffer (the (run example_env
        [Write_Done False, Read_Done Read_Ok [0], Read_Done Read_Ok [1], Pump]
        (on_transport_up example_env example_session))) = []
   \<and> wire (the (run example_env
        [Write_Done False, Read_Done Read_Ok [0], Read_Done Read_Ok [1], Pump]
        (on_transport_up example_env example_session))) = [[0]]"
proof -
  let ?es = "[Write_Done False, Read_Done Read_Ok [0], Read_Done Read_Ok [1], Pump]"
  let ?s = "the (run example_env ?es (on_transport_up example_env example_session))"
  have g: "\<not> hellos_exchanged example_session"
    by (simp add: hellos_exchanged_def example_defs)
  have r: "run example_env ?es (on_transport_up example_env example_session) = Some ?s"
    by (simp add: on_transport_up_def do_read_def do_hello_def send_defs example_defs)
  have v: "peer_id ?s = 9 \<and> ping_code (last_recv_ping ?s) = 5
           \<and> state ?s = idle_state \<and> out_buffer ?s = []"
    by (simp add: on_transport_up_def do_read_def do_hello_def on_write_def on_read_def
        on_message_def wait_on_app_def on_hello_def on_ping_def app_post_def
        check_for_redundant_connection_def pump_defs example_defs Let_def)
  have w: "wire example_session = []"
    by (simp add: example_defs)
  from pump_never_passes_hello_guard [OF g r] g r v w show ?thesis
    by (simp add: example_defs)
qed

section \<open>The hello exchange and redundant connections\<close>

lemma close_simps [simp]:
  "close (close s) = close s" "peer_id (close s) = peer_id s" "socket_closed (close s)"
  by (simp_all add: close_def)

lemma redundant_scan_others:
  "a \<noteq> self \<Longrightarrow> redundant_scan self registry st a = st a"
  by (induction registry arbitrary: st) (auto split: option.splits)

lemma shares_peer_id_iff:
  "shares_peer_id self registry st p \<longleftrightarrow>
     (\<exists>a\<in>set registry. a \<noteq> self \<and> (\<exists>s. st a = Some s \<and> peer_id s = p))"
  by (auto simp: shares_peer_id_def list_ex_iff split: option.splits)

text \<open>
  The scan closes \<open>self\<close>, the session that posted it, as soon as it meets another session
  with the same peer id; it never touches that other session.
\<close>

lemma redundant_scan_self:
  "st self = Some me \<Longrightarrow>
   redundant_scan self registry st self =
     Some (if shares_peer_id self registry st (peer_id me) then close me else me)"
proof (induction registry arbitrary: st me)
  case Nil
  then show ?case by (simp add: shares_peer_id_def)
next
  case (Cons a registry)
  show ?case
  proof (cases "a \<noteq> self \<and> (\<exists>s. st a = Some s \<and> peer_id s = peer_id me)")
    case True
    then have step: "redundant_scan self (a # registry) st =
        redundant_scan self registry (st(self \<mapsto> close me))"
      using Cons.prems by auto
    have "redundant_scan self registry (st(self \<mapsto> close me)) self =
        Some (if shares_peer_id self registry (st(self \<mapsto> close me)) (peer_id (close me))
              then close (close me) else close me)"
      by (rule Cons.IH) simp
    then have "redundant_scan self registry (st(self \<mapsto> close me)) self = Some (close me)"
      by simp
    moreover have "shares_peer_id self (a # registry) st (peer_id me)"
      using True by (auto simp: shares_peer_id_iff)
    ultimately show ?thesis
      unfolding step by simp
  next
    case False
    have step: "redundant_scan self (a # registry) st = redundant_scan self registry st"
      using False Cons.prems by (auto split: option.splits)
    have "shares_peer_id self (a # registry) st (peer_id me) =
          shares_peer_id self registry st (peer_id me)"
      using False by (auto simp: shares_peer_id_iff)
    moreover have "redundant_scan self registry st self =
        Some (if shares_peer_id self registry st (peer_id me) then close me else me)"
      using Cons.prems by (rule Cons.IH)
    ultimately show ?thesis
      unfolding step by simp
  qed
qed

text \<open>
  Claim C2, as amended. When a session receives a hello whose chain id is the local one
  and whose id is not the relay's own, it records the sender's id as its peer id and posts
  a scan of the registered sessions; the scan closes the receiving session itself, the
  newer one, if another registered session has the same peer id, and leaves it as it is
  otherwise. No other session is touched: the older session with that peer id stays open.
\<close>

theorem hello_dedup_closes_receiver:
  assumes "st self = Some me"
    and "hello_chain_id hi = local_chain_id env" and "hello_id hi \<noteq> relay_id env"
  shows
    "receive_hello env self hi registry st self =
       Some (let me' = me\<lparr>peer_id := hello_id hi,
                         app_posts := app_posts me @ [Check_Redundant]\<rparr>
             in if \<exists>a\<in>set registry. a \<noteq> self
                     \<and> (\<exists>s. st a = Some s \<and> peer_id s = hello_id hi)
                then close me' else me')
     \<and> (\<forall>a. a \<noteq> self \<longrightarrow> receive_hello env self hi registry st a = st a)"
proof -
  let ?me' = "me\<lparr>peer_id := hello_id hi, app_posts := app_posts me @ [Check_Redundant]\<rparr>"
  have h: "on_hello env hi me = ?me'"
    using assms by (simp add: on_hello_def check_for_redundant_connection_def app_post_def)
  have r: "receive_hello env self hi registry st =
      redundant_scan self registry (st(self \<mapsto> ?me'))"
    using assms(1) by (simp add: receive_hello_def h Let_def)
  have s: "shares_peer_id self registry (st(self \<mapsto> ?me')) (peer_id ?me') =
       (\<exists>a\<in>set registry. a \<noteq> self \<and> (\<exists>s. st a = Some s \<and> peer_id s = hello_id hi))"
    by (auto simp: shares_peer_id_iff)
  have "redundant_scan self registry (st(self \<mapsto> ?me')) self =
     Some (if shares_peer_id self registry (st(self \<mapsto> ?me')) (peer_id ?me')
           then close ?me' else ?me')"
    by (rule redundant_scan_self) simp
  then show ?thesis
    unfolding r s by (simp add: redundant_scan_others Let_def)
qed

theorem hello_dedup_closes_receiver_witness:
  "map_option socket_closed
     (receive_hello example_env 2
        \<lparr>hello_id = 9, hello_chain_id = 7, hello_contract = ''icp'',
         hello_peer_contract = ''icp''\<rparr>
        [1, 2]
        [1 \<mapsto> example_session\<lparr>peer_id := 9\<rparr>, 2 \<mapsto> example_session\<lparr>session_id := 2\<rparr>] 2)
     = Some True
   \<and> receive_hello example_env 2
        \<lparr>hello_id = 9, hello_chain_id = 7, hello_contract = ''icp'',
         hello_peer_contract = ''icp''\<rparr>
        [1, 2]
        [1 \<mapsto> example_session\<lparr>peer_id := 9\<rparr>, 2 \<mapsto> example_session\<lparr>session_id := 2\<rparr>] 1
     = Some (example_session\<lparr>peer_id := 9\<rparr>)"
  using hello_dedup_closes_receiver
    [of "[1 \<mapsto> example_session\<lparr>peer_id := 9\<rparr>, 2 \<mapsto> example_session\<lparr>session_id := 2\<rparr>]" 2
        "example_session\<lparr>session_id := 2\<rparr>"
        "\<lparr>hello_id = 9, hello_chain_id = 7, hello_contract = ''icp'',
          hello_peer_contract = ''icp''\<rparr>"
        example_env "[1, 2]"]
  by (simp add: example_defs Let_def)

text \<open>
  The claim as written fails: session 1 is the older session with peer id 9, session 2
  receives a hello from peer 9. After the scan the older session 1 is still open and the
  newer session 2 is the one that was closed.
\<close>

theorem hello_dedup_counterexample:
  "(let st' = receive_hello example_env 2
                \<lparr>hello_id = 9, hello_chain_id = 7, hello_contract = ''icp'',
                 hello_peer_contract = ''icp''\<rparr>
                [1, 2]
                [1 \<mapsto> example_session\<lparr>peer_id := 9\<rparr>,
                 2 \<mapsto> example_session\<lparr>session_id := 2\<rparr>]
    in map_option socket_closed (st' 1) = Some False
       \<and> map_option socket_closed (st' 2) = Some True
       \<and> map_option peer_id (st' 1) = Some 9
       \<and> map_option peer_id (st' 2) = Some 9)"
  by (simp add: receive_hello_def on_hello_def check_for_redundant_connection_def
      app_post_def example_defs Let_def close_def)

section \<open>Dispatch of received messages\<close>

lemma on_message_not_dispatched:
  "\<not> dispatched msg \<Longrightarrow> on_message env msg s = ws_close bad_payload s"
  by (cases msg) (simp_all add: on_message_def dispatched_def)

lemma on_message_keeps:
  "in_buffer (on_message env msg s) = in_buffer s"
  "reads_issued (on_message env msg s) = reads_issued s"
  by (cases msg; simp add: on_message_def pump_keeps handler_defs ws_close_def Let_def)+

text \<open>
  Claim C3 says that \<^verbatim>\<open>on_message\<close> hands a \<^verbatim>\<open>channel_seed\<close> to its handler, which posts
  one \<^verbatim>\<open>openchannel\<close> transaction. The handler does post it, but the switch of
  \<^verbatim>\<open>on_message\<close> has no case for the tag: a received \<^verbatim>\<open>channel_seed\<close> takes the default
  branch, nothing is posted and the websocket is closed with \<^verbatim>\<open>bad_payload\<close>.
\<close>

theorem channel_seed_not_dispatched:
  "on_message env (Channel_Seed cs) s = ws_close bad_payload s
   \<and> app_posts (on_message env (Channel_Seed cs) s) = app_posts s
   \<and> ws_closes (on_message env (Channel_Seed cs) s) = ws_closes s @ [bad_payload]
   \<and> app_posts (on_channel_seed env cs s) =
       app_posts s @
         [Push_Transaction [\<lparr>name = ACTION_OPENCHANNEL, data = pack_seed env (seed cs)\<rparr>]]"
  by (simp add: on_message_def ws_close_def on_channel_seed_def app_post_def)




text \<open>
  Claim C9. A message whose tag has no case in the switch of \<^verbatim>\<open>on_message\<close> makes the
  session close the websocket with \<^verbatim>\<open>bad_payload\<close>; so does a completed read whose frame
  decodes to such a message.
\<close>

theorem unhandled_tag_closes_bad_payload:
  assumes "\<not> dispatched msg"
  shows "ws_closes (on_message env msg s) = ws_closes s @ [bad_payload]
     \<and> (unpack_message env (in_buffer s @ received) = Some (msg, n) \<longrightarrow>
         ws_closes (on_read env Read_Ok received s) = ws_closes s @ [bad_payload])"
  using assms
  by (simp add: on_message_not_dispatched on_read_def ws_close_def wait_on_app_def
      app_post_def Let_def)

theorem unhandled_tag_closes_bad_payload_witness:
  "\<not> dispatched (Channel_Seed \<lparr>seed = Block_Header_State [9]\<rparr>)
   \<and> unpack_message example_env (in_buffer example_session @ [3]) =
       Some (Channel_Seed \<lparr>seed = Block_Header_State [9]\<rparr>, 1)
   \<and> ws_closes (on_read example_env Read_Ok [3] example_session) = [bad_payload]"
  using unhandled_tag_closes_bad_payload
    [of "Channel_Seed \<lparr>seed = Block_Header_State [9]\<rparr>" example_env example_session "[3]" 1]
  by (simp add: example_defs dispatched_def)

section \<open>The read loop\<close>

text \<open>
  Claim C4, as amended. After a read that completed without error and whose in-buffer
  decodes to an \<^verbatim>\<open>icp_message\<close>, the session hands that one message to \<^verbatim>\<open>on_message\<close>,
  removes from the in-buffer exactly the bytes the decoder read, and posts the next
  \<^verbatim>\<open>do_read\<close> to the application event loop; it issues no read itself.
\<close>

theorem read_loop_discipline:
  assumes "unpack_message env (in_buffer s @ received) = Some (msg, n)"
  shows "on_read env Read_Ok received s =
           (let h = on_message env msg (s\<lparr>in_buffer := in_buffer s @ received\<rparr>)
            in h\<lparr>in_buffer := drop n (in_buffer s @ received),
                 app_posts := app_posts h @ [Do_Read]\<rparr>)
         \<and> in_buffer (on_read env Read_Ok received s) = drop n (in_buffer s @ received)
         \<and> reads_issued (on_read env Read_Ok received s) = reads_issued s
         \<and> last (app_posts (on_read env Read_Ok received s)) = Do_Read"
  using assms
  by (simp add: on_read_def wait_on_app_def app_post_def Let_def on_message_keeps)

theorem read_loop_discipline_witness:
  "unpack_message example_env (in_buffer example_session @ [2, 8]) =
     Some (Pong \<lparr>pong_sent = 0, pong_code = 5\<rparr>, 1)
   \<and> in_buffer (on_read example_env Read_Ok [2, 8] example_session) =
       drop 1 (in_buffer example_session @ [2, 8])
   \<and> reads_issued (on_read example_env Read_Ok [2, 8] example_session) =
       reads_issued example_session
   \<and> last (app_posts (on_read example_env Read_Ok [2, 8] example_session)) = Do_Read"
proof -
  have h: "unpack_message example_env (in_buffer example_session @ [2, 8]) =
     Some (Pong \<lparr>pong_sent = 0, pong_code = 5\<rparr>, 1)"
    by (simp add: example_defs)
  from read_loop_discipline [OF h] h show ?thesis
    by blast
qed

text \<open>
  The claim as written fails on a read that completes without error but whose bytes do
  not decode: no message is handled, nothing is consumed, no read is re-armed; the
  websocket is closed with \<^verbatim>\<open>bad_payload\<close>.
\<close>

theorem read_loop_counterexample:
  "unpack_message example_env (in_buffer example_session @ [7]) = None
   \<and> in_buffer (on_read example_env Read_Ok [7] example_session) = [7]
   \<and> app_posts (on_read example_env Read_Ok [7] example_session) = []
   \<and> ws_closes (on_read example_env Read_Ok [7] example_session) = [bad_payload]"
  by (simp add: on_read_def ws_close_def Let_def example_defs)

section \<open>Translating received messages into transactions\<close>

text \<open>
  Claim C6 says that a received \<^verbatim>\<open>block_header_with_merkle_path\<close> whose first header links
  to the local head makes the session push one \<^verbatim>\<open>addblocks\<close> transaction. The handler does
  that when it is called: it posts the transaction exactly when the relay has a local
  head and the number of the first header (the number in the id at the front of the
  merkle path, or the header's own number when the path is empty) is the head's block
  number plus one in 32-bit arithmetic, and does nothing otherwise. But the switch of
  \<^verbatim>\<open>on_message\<close> has no case for the tag: a received message of this kind takes the default
  branch, nothing is pushed and the websocket is closed with \<^verbatim>\<open>bad_payload\<close>.
\<close>

theorem block_header_not_dispatched:
  "on_message env (Block_Header_With_Merkle_Path b) s = ws_close bad_payload s
   \<and> app_posts (on_message env (Block_Header_With_Merkle_Path b) s) = app_posts s
   \<and> ws_closes (on_message env (Block_Header_With_Merkle_Path b) s) =
       ws_closes s @ [bad_payload]
   \<and> on_block_header_with_merkle_path env b s =
       (if \<exists>h. get_head env = Some h
              \<and> (case merkle_path b of
                    [] \<Rightarrow> block_num (bhmp_block_header b)
                  | front # _ \<Rightarrow> num_from_id env front) = head_block_num h + 1
        then s\<lparr>app_posts := app_posts s @
                 [Push_Transaction [\<lparr>name = ACTION_ADDBLOCKS, data = pack_bhmp env b\<rparr>]]\<rparr>
        else s)"
  by (auto simp: on_message_def ws_close_def on_block_header_with_merkle_path_def
      first_num_def app_post_def split: option.splits list.splits)

text \<open>
  The local head is block 100 and the message holds header 101 with an empty path: the
  handler alone would post the transaction, the session that receives the message posts
  nothing. With block 55 at the front of the path the handler posts nothing either.
\<close>

theorem block_header_not_dispatched_witness:
  "app_posts (on_message example_env
      (Block_Header_With_Merkle_Path
         \<lparr>bhmp_block_header = \<lparr>block_num = 101, header_rest = [4]\<rparr>, merkle_path = []\<rparr>)
      example_session) = []
   \<and> ws_closes (on_message example_env
      (Block_Header_With_Merkle_Path
         \<lparr>bhmp_block_header = \<lparr>block_num = 101, header_rest = [4]\<rparr>, merkle_path = []\<rparr>)
      example_session) = [bad_payload]
   \<and> app_posts (on_block_header_with_merkle_path example_env
      \<lparr>bhmp_block_header = \<lparr>block_num = 101, header_rest = [4]\<rparr>, merkle_path = []\<rparr>
      example_session) = [Push_Transaction [\<lparr>name = ''addblocks'', data = [4]\<rparr>]]
   \<and> on_block_header_with_merkle_path example_env
      \<lparr>bhmp_block_header = \<lparr>block_num = 101, header_rest = [4]\<rparr>, merkle_path = [55]\<rparr>
      example_session = example_session"
  using
    block_header_not_dispatched [of example_env
      "\<lparr>bhmp_block_header = \<lparr>block_num = 101, header_rest = [4]\<rparr>, merkle_path = []\<rparr>"
      example_session]
    block_header_not_dispatched [of example_env
      "\<lparr>bhmp_block_header = \<lparr>block_num = 101, header_rest = [4]\<rparr>, merkle_path = [55]\<rparr>"
      example_session]
  by (simp add: example_defs ACTION_ADDBLOCKS_def ws_close_def)

declare icp_actions_loop.simps [simp del]

lemma icp_actions_loop_in_range:
  "length (peer_actions ia) \<le> length (actions ia) \<Longrightarrow>
   length (peer_actions ia) \<le> length (action_receipts ia) \<Longrightarrow>
   icp_actions_loop env ia bid i s =
     Inr (s\<lparr>app_posts := app_posts s @
           map (\<lambda>j. Push_Transaction [peer_action env ia bid j])
             [i..<length (peer_actions ia)]\<rparr>)"
proof (induction env ia bid i s rule: icp_actions_loop.induct)
  case (1 env ia bid i s)
  show ?case
  proof (cases "i < length (peer_actions ia)")
    case True
    then have "i < length (actions ia)" "i < length (action_receipts ia)"
      using "1.prems" by auto
    with True "1.IH" "1.prems" show ?thesis
      by (subst icp_actions_loop.simps) (simp add: app_post_def upt_conv_Cons)
  next
    case False
    then show ?thesis
      by (subst icp_actions_loop.simps) simp
  qed
qed

lemma icp_actions_loop_out_of_range:
  "i \<le> length (peer_actions ia) \<Longrightarrow>
   length (actions ia) < length (peer_actions ia)
     \<or> length (action_receipts ia) < length (peer_actions ia) \<Longrightarrow>
   i \<le> length (actions ia) \<Longrightarrow> i \<le> length (action_receipts ia) \<Longrightarrow>
   icp_actions_loop env ia bid i s = Inl Out_Of_Bounds"
proof (induction env ia bid i s rule: icp_actions_loop.induct)
  case (1 env ia bid i s)
  show ?case
  proof (cases "i < length (actions ia) \<and> i < length (action_receipts ia)")
    case True
    with "1.prems" have "i < length (peer_actions ia)" by auto
    with True "1.IH" "1.prems" show ?thesis
      by (subst icp_actions_loop.simps) simp
  next
    case False
    with "1.prems" have "i < length (peer_actions ia)" by auto
    with False show ?thesis
      by (subst icp_actions_loop.simps) auto
  qed
qed

lemma on_icp_actions_in_range:
  assumes "length (peer_actions ia) \<le> length (actions ia)"
    and "length (peer_actions ia) \<le> length (action_receipts ia)"
  shows "on_icp_actions env ia s =
     Inr (s\<lparr>app_posts := app_posts s @
        Push_Transaction
          [\<lparr>name = ACTION_ADDBLOCK, data = pack_header env (ia_block_header ia)\<rparr>] #
        map (\<lambda>i. Push_Transaction
                   [peer_action env ia (header_id env (ia_block_header ia)) i])
            [0..<length (peer_actions ia)]\<rparr>)"
  using assms by (simp add: on_icp_actions_def icp_actions_loop_in_range app_post_def Let_def)

lemma on_icp_actions_out_of_range:
  assumes "length (actions ia) < length (peer_actions ia)
           \<or> length (action_receipts ia) < length (peer_actions ia)"
  shows "on_icp_actions env ia s = Inl Out_Of_Bounds"
  using assms by (simp add: on_icp_actions_def Let_def icp_actions_loop_out_of_range)

text \<open>
  Claim C7 says that a received \<^verbatim>\<open>icp_actions\<close> makes the handler push one \<^verbatim>\<open>addblock\<close>
  followed by one transaction per peer action. The handler does that when it is called on
  a message whose \<^verbatim>\<open>actions\<close> and \<^verbatim>\<open>action_receipts\<close> are at least as long as its
  \<^verbatim>\<open>peer_actions\<close>: the \<^verbatim>\<open>addblock\<close> carries the packed block header, and the transaction
  for index \<open>i\<close>, in increasing order, is named \<^verbatim>\<open>peer_actions[i]\<close> and carries the packed
  \<^verbatim>\<open>icp_action\<close> made of the packed \<^verbatim>\<open>actions[i]\<close>, the packed \<^verbatim>\<open>action_receipts[i]\<close>, the id of
  the block header and \<^verbatim>\<open>action_digests\<close>. But the switch of \<^verbatim>\<open>on_message\<close> has no case for
  the tag: a received \<^verbatim>\<open>icp_actions\<close>, well-formed or not, takes the default branch, nothing
  is pushed and the websocket is closed with \<^verbatim>\<open>bad_payload\<close>.
\<close>

theorem icp_actions_not_dispatched:
  "on_message env (Icp_Actions ia) s = ws_close bad_payload s
   \<and> app_posts (on_message env (Icp_Actions ia) s) = app_posts s
   \<and> ws_closes (on_message env (Icp_Actions ia) s) = ws_closes s @ [bad_payload]
   \<and> (length (peer_actions ia) \<le> length (actions ia)
        \<and> length (peer_actions ia) \<le> length (action_receipts ia) \<longrightarrow>
      on_icp_actions env ia s =
        Inr (s\<lparr>app_posts := app_posts s @
          Push_Transaction
            [\<lparr>name = ACTION_ADDBLOCK, data = pack_header env (ia_block_header ia)\<rparr>] #
          map (\<lambda>i. Push_Transaction
                    [\<lparr>name = peer_actions ia ! i,
                      data = pack_icp_action env
                         \<lparr>action_bytes = pack_chain_action env (actions ia ! i),
                          receipt_bytes = pack_receipt env (action_receipts ia ! i),
                          block_id = header_id env (ia_block_header ia),
                          digests = action_digests ia\<rparr>\<rparr>])
              [0..<length (peer_actions ia)]\<rparr>))"
  using on_icp_actions_in_range [of ia env s]
  by (simp add: on_message_def ws_close_def peer_action_def)

text \<open>
  A well-formed message with one peer action: the handler alone would post the
  \<^verbatim>\<open>addblock\<close> and the \<^verbatim>\<open>onpacket\<close>, the session that receives the message posts nothing.
\<close>

theorem icp_actions_not_dispatched_witness:
  "app_posts (on_message example_env
     (Icp_Actions
        \<lparr>ia_block_header = \<lparr>block_num = 101, header_rest = [4]\<rparr>,
         peer_actions = [''onpacket''], actions = [Chain_Action [1]],
         action_receipts = [Action_Receipt [2]], action_digests = []\<rparr>)
     example_session) = []
   \<and> ws_closes (on_message example_env
     (Icp_Actions
        \<lparr>ia_block_header = \<lparr>block_num = 101, header_rest = [4]\<rparr>,
         peer_actions = [''onpacket''], actions = [Chain_Action [1]],
         action_receipts = [Action_Receipt [2]], action_digests = []\<rparr>)
     example_session) = [bad_payload]
   \<and> on_icp_actions example_env
     \<lparr>ia_block_header = \<lparr>block_num = 101, header_rest = [4]\<rparr>,
      peer_actions = [''onpacket''], actions = [Chain_Action [1]],
      action_receipts = [Action_Receipt [2]], action_digests = []\<rparr>
     example_session =
   Inr (example_session\<lparr>app_posts :=
          [Push_Transaction [\<lparr>name = ''addblock'', data = [4]\<rparr>],
           Push_Transaction [\<lparr>name = ''onpacket'', data = [1, 2]\<rparr>]]\<rparr>)"
  using icp_actions_not_dispatched [of example_env
     "\<lparr>ia_block_header = \<lparr>block_num = 101, header_rest = [4]\<rparr>,
      peer_actions = [''onpacket''], actions = [Chain_Action [1]],
      action_receipts = [Action_Receipt [2]], action_digests = []\<rparr>"
     example_session]
  by (simp add: example_defs ACTION_ADDBLOCK_def ws_close_def)

text \<open>
  Claim C10. The handler of \<^verbatim>\<open>icp_actions\<close> checks no length before it indexes: its element
  accesses on \<^verbatim>\<open>actions\<close> and \<^verbatim>\<open>action_receipts\<close> are all in bounds exactly when both are at
  least as long as \<^verbatim>\<open>peer_actions\<close>; when one of them is shorter the handler runs into an
  access beyond the end.
\<close>

theorem icp_actions_bounds_precondition:
  "if length (peer_actions ia) \<le> length (actions ia)
      \<and> length (peer_actions ia) \<le> length (action_receipts ia)
   then \<exists>s'. on_icp_actions env ia s = Inr s'
   else on_icp_actions env ia s = Inl Out_Of_Bounds"
  using on_icp_actions_in_range [of ia env s] on_icp_actions_out_of_range [of ia env s]
  by (cases "length (peer_actions ia) \<le> length (actions ia)
      \<and> length (peer_actions ia) \<le> length (action_receipts ia)") auto

theorem icp_actions_bounds_precondition_witness:
  "(\<exists>s'. on_icp_actions example_env
     \<lparr>ia_block_header = \<lparr>block_num = 101, header_rest = [4]\<rparr>,
      peer_actions = [''onpacket''], actions = [Chain_Action [1], Chain_Action [3]],
      action_receipts = [Action_Receipt [2]], action_digests = []\<rparr>
     example_session = Inr s')
   \<and> on_icp_actions example_env
     \<lparr>ia_block_header = \<lparr>block_num = 101, header_rest = [4]\<rparr>,
      peer_actions = [''onpacket'', ''onreceipt''], actions = [Chain_Action [1], Chain_Action [3]],
      action_receipts = [Action_Receipt [2]], action_digests = []\<rparr>
     example_session = Inl Out_Of_Bounds"
  using
    icp_actions_bounds_precondition [of
     "\<lparr>ia_block_header = \<lparr>block_num = 101, header_rest = [4]\<rparr>,
      peer_actions = [''onpacket''], actions = [Chain_Action [1], Chain_Action [3]],
      action_receipts = [Action_Receipt [2]], action_digests = []\<rparr>"
     example_env example_session]
    icp_actions_bounds_precondition [of
     "\<lparr>ia_block_header = \<lparr>block_num = 101, header_rest = [4]\<rparr>,
      peer_actions = [''onpacket'', ''onreceipt''], actions = [Chain_Action [1], Chain_Action [3]],
      action_receipts = [Action_Receipt [2]], action_digests = []\<rparr>"
     example_env example_session]
  by simp

section \<open>Writes in flight\<close>

lemma handlers_quiet:
  "quiet s (on_hello env hi s)" "quiet s (on_ping env p s)" "quiet s (on_pong q s)"
  "quiet s (ws_close c s)" "quiet s (on_error s)" "quiet s (buffer_send m s)"
  "quiet s (do_read s)" "quiet s (wait_on_app s)"
  by (simp_all add: quiet_def handler_defs ws_close_def on_error_def buffer_send_def
      do_read_def wait_on_app_def Let_def)

lemma quiet_trans: "quiet s s' \<Longrightarrow> quiet s' s'' \<Longrightarrow> quiet s s''"
  by (simp add: quiet_def)

lemma quiet_then_one: "quiet s s' \<Longrightarrow> one_write s' s'' \<Longrightarrow> one_write s s''"
  by (auto simp: quiet_def one_write_def)

lemma one_then_quiet: "one_write s s' \<Longrightarrow> quiet s' s'' \<Longrightarrow> one_write s s''"
  by (auto simp: quiet_def one_write_def)

lemma on_message_quiet_or_one:
  "quiet s (on_message env msg s) \<or> one_write s (on_message env msg s)"
proof (cases msg)
  case (Hello hi)
  then show ?thesis
    using pump_quiet_or_one [of "on_hello env hi s" env] handlers_quiet(1) [of s env hi]
    by (auto simp: on_message_def intro: quiet_trans quiet_then_one)
next
  case (Ping p)
  then show ?thesis
    using pump_quiet_or_one [of "on_ping env p s" env] handlers_quiet(2) [of s env p]
    by (auto simp: on_message_def intro: quiet_trans quiet_then_one)
next
  case (Pong q)
  then show ?thesis
    using pump_quiet_or_one [of "on_pong q s" env] handlers_quiet(3) [of s q]
    by (auto simp: on_message_def intro: quiet_trans quiet_then_one)
qed (simp_all add: on_message_def handlers_quiet)

lemma on_read_quiet_or_one:
  "quiet s (on_read env ec received s) \<or> one_write s (on_read env ec received s)"
proof -
  let ?s0 = "s\<lparr>in_buffer := in_buffer s @ received\<rparr>"
  have q0: "quiet s ?s0" by (simp add: quiet_def)
  show ?thesis
  proof (cases ec)
    case Read_Ok
    show ?thesis
    proof (cases "unpack_message env (in_buffer s @ received)")
      case None
      with Read_Ok show ?thesis by (simp add: on_read_def quiet_def ws_close_def)
    next
      case (Some a)
      obtain msg n where a: "a = (msg, n)" by (cases a)
      let ?s1 = "on_message env msg ?s0"
      have r: "on_read env ec received s =
          wait_on_app (?s1\<lparr>in_buffer := drop n (in_buffer ?s1)\<rparr>)"
        using Read_Ok Some a by (simp add: on_read_def Let_def)
      have q2: "quiet ?s1 (wait_on_app (?s1\<lparr>in_buffer := drop n (in_buffer ?s1)\<rparr>))"
        by (simp add: quiet_def wait_on_app_def app_post_def)
      from on_message_quiet_or_one [of ?s0 env msg] show ?thesis
      proof
        assume "quiet ?s0 ?s1"
        with q0 q2 show ?thesis unfolding r by (blast intro: quiet_trans)
      next
        assume "one_write ?s0 ?s1"
        with q0 q2 show ?thesis unfolding r by (blast intro: quiet_then_one one_then_quiet)
      qed
    qed
  qed (simp_all add: on_read_def quiet_def on_error_def)
qed

lemma handle_quiet_or_one:
  "\<not> is_write_done e \<Longrightarrow> quiet s (handle env e s) \<or> one_write s (handle env e s)"
  by (cases e)
    (simp_all add: is_write_done_def on_read_quiet_or_one pump_quiet_or_one handlers_quiet)

lemma write_inv_on_write:
  assumes "write_inv s" and "0 < writes_in_flight s"
  shows "write_inv (on_write env ec s)"
proof (cases ec)
  case True
  with assms show ?thesis by (auto simp: write_inv_def on_write_def on_error_def Let_def)
next
  case False
  let ?m = "s\<lparr>writes_in_flight := writes_in_flight s - 1, state := idle_state,
               out_buffer := []\<rparr>"
  have w: "on_write env ec s = maybe_send_next_message env ?m"
    using False by (simp add: on_write_def Let_def)
  have m: "writes_in_flight ?m = 0" using assms by (auto simp: write_inv_def)
  from pump_quiet_or_one [of ?m env] m show ?thesis
    unfolding w by (auto simp: write_inv_def quiet_def one_write_def)
qed

lemma write_inv_handle:
  assumes "write_inv s" and "enabled e s"
  shows "write_inv (handle env e s)"
proof (cases "is_write_done e")
  case True
  with assms show ?thesis by (cases e) (simp_all add: is_write_done_def write_inv_on_write)
next
  case False
  with handle_quiet_or_one [OF False, of s env] assms show ?thesis
    by (auto simp: write_inv_def quiet_def one_write_def)
qed

lemma write_inv_run: "write_inv s \<Longrightarrow> run env es s = Some s' \<Longrightarrow> write_inv s'"
proof (induction es arbitrary: s)
  case Nil
  then show ?case by simp
next
  case (Cons e es)
  from Cons.prems(2) have en: "enabled e s" and r: "run env es (handle env e s) = Some s'"
    by (auto split: if_splits)
  from Cons.prems(1) en have "write_inv (handle env e s)" by (rule write_inv_handle)
  then show ?case using r by (rule Cons.IH)
qed

lemma write_inv_start: "fresh s0 \<Longrightarrow> write_inv (on_transport_up env s0)"
  by (simp add: fresh_def write_inv_def on_transport_up_def do_read_def do_hello_def send_defs)

lemma one_write_length: "one_write s s' \<Longrightarrow> length (wire s') = Suc (length (wire s))"
  by (cases "wire s'" rule: rev_cases) (auto simp: one_write_def)

lemma quiet_or_one_length:
  "quiet s s' \<or> one_write s s' \<Longrightarrow> length (wire s') \<le> Suc (length (wire s))"
  by (auto simp: quiet_def dest: one_write_length)

lemma on_write_wire: "length (wire (on_write env ec s)) \<le> Suc (length (wire s))"
proof (cases ec)
  case True
  then show ?thesis by (simp add: on_write_def on_error_def Let_def)
next
  case False
  let ?m = "s\<lparr>writes_in_flight := writes_in_flight s - 1, state := idle_state,
               out_buffer := []\<rparr>"
  have "on_write env ec s = maybe_send_next_message env ?m"
    using False by (simp add: on_write_def Let_def)
  with quiet_or_one_length [OF pump_quiet_or_one [of ?m env]] show ?thesis by simp
qed

text \<open>Who started the writes: the first one is direct, every later one is the pump's.\<close>

lemma handle_producers:
  assumes "enabled e s"
  shows "pumping (handle env e s) = pumping s
     \<and> (wire (handle env e s) = wire s \<and> producers (handle env e s) = producers s
        \<or> wire (handle env e s) \<noteq> [] \<and> butlast (wire (handle env e s)) = wire s
          \<and> producers (handle env e s) = producers s @ [From_Pump])"
proof (cases e)
  case (Write_Done ec)
  show ?thesis
  proof (cases ec)
    case True
    with Write_Done show ?thesis by (simp add: on_write_def on_error_def Let_def)
  next
    case False
    let ?m = "s\<lparr>writes_in_flight := writes_in_flight s - 1, state := idle_state,
                 out_buffer := []\<rparr>"
    have "handle env e s = maybe_send_next_message env ?m"
      using False Write_Done by (simp add: on_write_def Let_def)
    with pump_quiet_or_one [of ?m env] show ?thesis
      by (auto simp: quiet_def one_write_def)
  qed
next
  case (Read_Done ec received)
  then have "\<not> is_write_done e" by (simp add: is_write_done_def)
  from handle_quiet_or_one [OF this, of s env] show ?thesis
    by (auto simp: quiet_def one_write_def)
next
  case (Enqueue msg)
  then show ?thesis by (simp add: buffer_send_def)
next
  case Pump
  with pump_quiet_or_one [of s env] show ?thesis
    by (auto simp: quiet_def one_write_def)
next
  case App_Read
  then show ?thesis by (simp add: do_read_def)
qed

lemma producers_inv_handle:
  assumes "producers_inv s" and "enabled e s"
  shows "producers_inv (handle env e s)"
proof -
  from assms(1) have p: "\<not> pumping s" "wire s \<noteq> []"
    "producers s = Direct # replicate (length (wire s) - 1) From_Pump"
    by (simp_all add: producers_inv_def)
  note n = p(2)
  from handle_producers [OF assms(2), of env]
  have k: "pumping (handle env e s) = pumping s" and
    d: "wire (handle env e s) = wire s \<and> producers (handle env e s) = producers s
        \<or> wire (handle env e s) \<noteq> [] \<and> butlast (wire (handle env e s)) = wire s
          \<and> producers (handle env e s) = producers s @ [From_Pump]"
    by blast+
  from d show ?thesis
  proof
    assume "wire (handle env e s) = wire s \<and> producers (handle env e s) = producers s"
    with p k show ?thesis by (simp add: producers_inv_def)
  next
    assume a: "wire (handle env e s) \<noteq> [] \<and> butlast (wire (handle env e s)) = wire s
          \<and> producers (handle env e s) = producers s @ [From_Pump]"
    then have l: "length (wire (handle env e s)) = Suc (length (wire s))"
      by (cases "wire (handle env e s)" rule: rev_cases) auto
    obtain j where j: "length (wire s) = Suc j" using n by (cases "wire s") auto
    have "producers s @ [From_Pump] = Direct # replicate (Suc j) From_Pump"
      using p(3) j by (simp add: replicate_append_same)
    with a l j p k show ?thesis by (simp add: producers_inv_def)
  qed
qed

lemma producers_inv_run:
  "producers_inv s \<Longrightarrow> run env es s = Some s' \<Longrightarrow> producers_inv s'"
proof (induction es arbitrary: s)
  case Nil
  then show ?case by simp
next
  case (Cons e es)
  from Cons.prems(2) have en: "enabled e s" and r: "run env es (handle env e s) = Some s'"
    by (auto split: if_splits)
  from Cons.prems(1) en have "producers_inv (handle env e s)" by (rule producers_inv_handle)
  then show ?case using r by (rule Cons.IH)
qed

lemma producers_inv_start: "fresh s0 \<Longrightarrow> producers_inv (on_transport_up env s0)"
  by (simp add: fresh_def producers_inv_def on_transport_up_def do_read_def do_hello_def send_defs)

text \<open>
  Claim C5, as amended. A session starts idle with nothing written; when its transport
  is up it writes its hello, directly and not through the pump. From then on, in every
  state it can reach: at most one write is in flight; while one is in flight the state is
  sending; no event other than the completion of the write in flight starts a write
  while the state is sending or the out-buffer is non-empty; every event starts at most
  one write; and of the writes started so far the first, the hello, was started outside
  the send pump and every later one inside it.
\<close>

theorem at_most_one_write_in_flight:
  assumes "fresh s0" and "run env es (on_transport_up env s0) = Some s"
  shows "wire (on_transport_up env s0) =
           [pack_message env
              (Hello \<lparr>hello_id = relay_id env, hello_chain_id = local_chain_id env,
                      hello_contract = local_contract env,
                      hello_peer_contract = peer_contract env\<rparr>)]
     \<and> producers (on_transport_up env s0) = [Direct]
     \<and> writes_in_flight s \<le> 1
     \<and> (writes_in_flight s = 1 \<longrightarrow> state s = sending_state)
     \<and> (\<forall>e. \<not> is_write_done e \<and> (state s = sending_state \<or> out_buffer s \<noteq> []) \<longrightarrow>
            wire (handle env e s) = wire s
            \<and> writes_in_flight (handle env e s) = writes_in_flight s)
     \<and> (\<forall>e. enabled e s \<longrightarrow>
            length (wire (handle env e s)) \<le> Suc (length (wire s))
            \<and> writes_in_flight (handle env e s) \<le> 1)
     \<and> length (producers s) = length (wire s)
     \<and> producers s = Direct # replicate (length (wire s) - 1) From_Pump"
proof -
  have h: "wire (on_transport_up env s0) =
           [pack_message env
              (Hello \<lparr>hello_id = relay_id env, hello_chain_id = local_chain_id env,
                      hello_contract = local_contract env,
                      hello_peer_contract = peer_contract env\<rparr>)]
        \<and> producers (on_transport_up env s0) = [Direct]"
    using assms(1) by (simp add: fresh_def on_transport_up_def do_read_def do_hello_def send_defs)
  have i: "write_inv s" using assms write_inv_start write_inv_run by blast
  have p: "producers_inv s" using assms producers_inv_start producers_inv_run by blast
  have a: "writes_in_flight s \<le> 1 \<and> (writes_in_flight s = 1 \<longrightarrow> state s = sending_state)"
    using i by (auto simp: write_inv_def)
  have b: "wire (handle env e s) = wire s
           \<and> writes_in_flight (handle env e s) = writes_in_flight s"
    if "\<not> is_write_done e" "state s = sending_state \<or> out_buffer s \<noteq> []" for e
    using handle_quiet_or_one [OF that(1), of s env] that(2)
    by (auto simp: quiet_def one_write_def)
  have c: "length (wire (handle env e s)) \<le> Suc (length (wire s))
           \<and> writes_in_flight (handle env e s) \<le> 1"
    if "enabled e s" for e
  proof -
    have "write_inv (handle env e s)" using i that by (rule write_inv_handle)
    then have "writes_in_flight (handle env e s) \<le> 1" by (simp add: write_inv_def)
    moreover have "length (wire (handle env e s)) \<le> Suc (length (wire s))"
    proof (cases "is_write_done e")
      case True
      then show ?thesis by (cases e) (simp_all add: is_write_done_def on_write_wire)
    next
      case False
      from handle_quiet_or_one [OF False, of s env] show ?thesis
        by (rule quiet_or_one_length)
    qed
    ultimately show ?thesis by simp
  qed
  have d: "length (producers s) = length (wire s)
     \<and> producers s = Direct # replicate (length (wire s) - 1) From_Pump"
    using p by (cases "wire s") (simp_all add: producers_inv_def)
  from h a b c d show ?thesis by blast
qed

text \<open>
  The session of the witness has both hello flags up. Its hello is written and
  completes; the pump that the completion invokes finds a ping due and writes it.
\<close>

theorem at_most_one_write_in_flight_witness:
  "fresh flagged_session
   \<and> run example_env [Write_Done False] (on_transport_up example_env flagged_session) =
       Some (the (run example_env [Write_Done False]
                    (on_transport_up example_env flagged_session)))
   \<and> wire (the (run example_env [Write_Done False]
                    (on_transport_up example_env flagged_session))) = [[0], [1, 255]]
   \<and> producers (the (run example_env [Write_Done False]
                    (on_transport_up example_env flagged_session))) = [Direct, From_Pump]
   \<and> writes_in_flight (the (run example_env [Write_Done False]
                    (on_transport_up example_env flagged_session))) \<le> 1
   \<and> wire (handle example_env Pump (the (run example_env [Write_Done False]
                    (on_transport_up example_env flagged_session)))) = [[0], [1, 255]]"
proof -
  let ?s = "the (run example_env [Write_Done False]
                   (on_transport_up example_env flagged_session))"
  have f: "fresh flagged_session"
    by (simp add: fresh_def example_defs)
  have r: "run example_env [Write_Done False] (on_transport_up example_env flagged_session)
             = Some ?s"
    by (simp add: on_transport_up_def do_read_def do_hello_def send_defs example_defs)
  have w: "wire ?s = [[0], [1, 255]] \<and> state ?s = sending_state \<and> \<not> is_write_done Pump"
    by (simp add: on_transport_up_def do_read_def do_hello_def on_write_def pump_defs
        example_defs is_write_done_def Let_def)
  from at_most_one_write_in_flight [OF f r, THEN conjunct2, THEN conjunct2] f r w
  show ?thesis
    by (auto simp: numeral_2_eq_2)
qed

text \<open>
  The claim as written fails where it makes the pump the only producer: on a new session
  the pump writes nothing, and the session's first write, the hello, is started by
  \<^verbatim>\<open>do_hello\<close> itself, outside the pump.
\<close>

theorem first_write_not_by_pump_counterexample:
  "fresh example_session
   \<and> maybe_send_next_message example_env example_session = example_session
   \<and> wire (do_hello example_env example_session) = [[0]]
   \<and> producers (do_hello example_env example_session) = [Direct]
   \<and> writes_in_flight (do_hello example_env example_session) = 1
   \<and> state (do_hello example_env example_session) = sending_state"
  by (simp add: fresh_def maybe_send_next_message_def do_hello_def send_defs example_defs
      Let_def)

end
